theory Spec2Isabelle
  imports Main
begin

section \<open>midi\_to\_sc.py: the note namer and the duration quantizer\<close>

text \<open>
  \<^verbatim>\<open>note_names = {60: "C4", 61: "C#4", ..., 91: "G6"}\<close>: the dictionary literal of
  \<^verbatim>\<open>midi_note_to_name\<close>, entry by entry, as an association list.
\<close>

definition note_names :: "(int \<times> string) list" where
  "note_names =
    [(60, ''C4''), (61, ''C#4''), (62, ''D4''), (63, ''D#4''), (64, ''E4''), (65, ''F4''),
     (66, ''F#4''), (67, ''G4''), (68, ''G#4''), (69, ''A4''), (70, ''A#4''), (71, ''B4''),
     (72, ''C5''), (73, ''C#5''), (74, ''D5''), (75, ''D#5''), (76, ''E5''), (77, ''F5''),
     (78, ''F#5''), (79, ''G5''), (80, ''G#5''), (81, ''A5''), (82, ''A#5''), (83, ''B5''),
     (84, ''C6''), (85, ''C#6''), (86, ''D6''), (87, ''D#6''), (88, ''E6''), (89, ''F6''),
     (90, ''F#6''), (91, ''G6'')]"

text \<open>\<^verbatim>\<open>return note_names.get(midi_number, "Unknown")\<close>\<close>

definition midi_note_to_name :: "int \<Rightarrow> string" where
  "midi_note_to_name midi_number =
    (case map_of note_names midi_number of None \<Rightarrow> ''Unknown'' | Some name \<Rightarrow> name)"

text \<open>
  \<^verbatim>\<open>int(ticks / 10)\<close>: Python's true division followed by \<^verbatim>\<open>int\<close>, which
  truncates toward zero. The quotient is computed in floating point by the source; the
  branch of \<^verbatim>\<open>convert_ticks_to_duration\<close> that evaluates it is reached for
  \<open>10 \<le> ticks \<le> 500\<close> only, where the rounded quotient truncates to the exact one.
\<close>

definition int_truediv :: "int \<Rightarrow> int \<Rightarrow> int" where
  "int_truediv a b = sgn a * sgn b * (\<bar>a\<bar> div \<bar>b\<bar>)"

definition convert_ticks_to_duration :: "int \<Rightarrow> int" where
  "convert_ticks_to_duration ticks =
    (if ticks < 10 then 79
     else if ticks > 500 then 512
     else int_truediv ticks 10)"

text \<open>
  The wording of the specification for the names of the range 60..91: the chromatic
  scale with sharps only, twelve pitch classes to the octave, MIDI note 60 being C4.
\<close>

definition chromatic_scale :: "string list" where
  "chromatic_scale =
    [''C'', ''C#'', ''D'', ''D#'', ''E'', ''F'', ''F#'', ''G'', ''G#'', ''A'', ''A#'', ''B'']"

definition octave_digit :: "int \<Rightarrow> string" where
  "octave_digit n = (if n < 72 then ''4'' else if n < 84 then ''5'' else ''6'')"

definition chromatic_name :: "int \<Rightarrow> string" where
  "chromatic_name n = chromatic_scale ! nat (n mod 12) @ octave_digit n"


section \<open>midi\_to\_sc.py: messages, decimal rendering and note tokens\<close>

text \<open>
  A message of a parsed track, with the four attributes the conversion reads:
  \<^verbatim>\<open>msg.type\<close>, \<^verbatim>\<open>msg.note\<close>, \<^verbatim>\<open>msg.velocity\<close> and \<^verbatim>\<open>msg.time\<close>. The note and
  the velocity are read only after \<^verbatim>\<open>msg.type == 'note_on'\<close> has held, so their
  values in other messages are immaterial. The input of the conversion is the list
  \<^verbatim>\<open>midi.tracks\<close> that the MIDI reader returns.
\<close>

record msg =
  msg_type :: string
  msg_note :: int
  msg_velocity :: int
  msg_time :: int

type_synonym track = "msg list"

text \<open>\<^verbatim>\<open>msg.type == 'note_on' and msg.velocity > 0\<close>\<close>

definition is_note_on :: "msg \<Rightarrow> bool" where
  "is_note_on m \<longleftrightarrow> msg_type m = ''note_on'' \<and> msg_velocity m > 0"

text \<open>The decimal text that an f-string gives an integer.\<close>

fun str_nat :: "nat \<Rightarrow> string" where
  "str_nat n =
    (if n < 10 then [''0123456789'' ! n]
     else str_nat (n div 10) @ [''0123456789'' ! (n mod 10)])"

declare str_nat.simps [simp del]

definition str_int :: "int \<Rightarrow> string" where
  "str_int i = (if i < 0 then CHR ''-'' # str_nat (nat (- i)) else str_nat (nat i))"

text \<open>
  \<^verbatim>\<open>note_name = midi_note_to_name(msg.note)\<close>,
  \<^verbatim>\<open>duration = convert_ticks_to_duration(msg.time - prev_time)\<close>,
  \<^verbatim>\<open>note_duration = f"<{note_name}>,<{duration}>"\<close>
\<close>

definition note_duration :: "int \<Rightarrow> msg \<Rightarrow> string" where
  "note_duration prev m =
    (let note_name = midi_note_to_name (msg_note m);
         duration = convert_ticks_to_duration (msg_time m - prev)
     in ''<'' @ note_name @ ''>,<'' @ str_int duration @ ''>'')"

section \<open>The bar segmenter, over a store of list objects\<close>

text \<open>
  \<^verbatim>\<open>current_bar_notes\<close> and the elements of \<^verbatim>\<open>bars\<close> are references to Python
  list objects, and \<^verbatim>\<open>bars.append(current_bar_notes)\<close> stores the reference, not a
  copy. The state therefore holds a store from addresses to list contents; the variable
  \<^verbatim>\<open>current_bar_notes\<close> is an address and \<^verbatim>\<open>bars\<close> a list of addresses.
  \<open>next_addr\<close> is the first address not yet given to a list.
\<close>

record seg_state =
  store :: "nat \<Rightarrow> string list"
  next_addr :: nat
  current_bar_notes :: nat
  bars :: "nat list"
  prev_time :: int

text \<open>\<^verbatim>\<open>prev_time = 0; current_bar_notes = []; bars = []\<close>, before the loop over the tracks.\<close>

definition initial_state :: seg_state where
  "initial_state =
    \<lparr>store = (\<lambda>a. []), next_addr = 1, current_bar_notes = 0, bars = [], prev_time = 0\<rparr>"

text \<open>\<^verbatim>\<open>current_bar_notes.append(note_duration)\<close>: the object is changed in place.\<close>

definition append_note :: "string \<Rightarrow> seg_state \<Rightarrow> seg_state" where
  "append_note x s =
    s\<lparr>store := (store s)(current_bar_notes s := store s (current_bar_notes s) @ [x])\<rparr>"

text \<open>\<^verbatim>\<open>bars.append(current_bar_notes)\<close>\<close>

definition push_bar :: "seg_state \<Rightarrow> seg_state" where
  "push_bar s = s\<lparr>bars := bars s @ [current_bar_notes s]\<rparr>"

text \<open>\<^verbatim>\<open>current_bar_notes = []\<close>: the variable is bound to a new, empty list object.\<close>

definition new_bar :: "seg_state \<Rightarrow> seg_state" where
  "new_bar s =
    s\<lparr>store := (store s)(next_addr s := []),
      current_bar_notes := next_addr s,
      next_addr := Suc (next_addr s)\<rparr>"

text \<open>The body of \<^verbatim>\<open>for msg in track\<close>.\<close>

definition process_msg :: "int \<Rightarrow> msg \<Rightarrow> seg_state \<Rightarrow> seg_state" where
  "process_msg ticks_per_bar m s =
    (let s' =
       (if is_note_on m then
          (let s1 = append_note (note_duration (prev_time s) m) s
           in if msg_time m \<ge> ticks_per_bar then new_bar (push_bar s1) else s1)
        else s)
     in s'\<lparr>prev_time := msg_time m\<rparr>)"

text \<open>
  The body of \<^verbatim>\<open>for track in midi.tracks\<close>: the messages in order, then
  \<^verbatim>\<open>if current_bar_notes: bars.append(current_bar_notes)\<close>. The variable
  \<^verbatim>\<open>current_bar_notes\<close> keeps its object after this append.
\<close>

definition process_track :: "int \<Rightarrow> track \<Rightarrow> seg_state \<Rightarrow> seg_state" where
  "process_track ticks_per_bar t s =
    (let s' = fold (process_msg ticks_per_bar) t s
     in if store s' (current_bar_notes s') \<noteq> [] then push_bar s' else s')"

definition segment :: "int \<Rightarrow> track list \<Rightarrow> seg_state" where
  "segment ticks_per_bar tracks = fold (process_track ticks_per_bar) tracks initial_state"

text \<open>The contents of \<^verbatim>\<open>bars\<close> as the formatter reads them: each reference followed.\<close>

definition read_bars :: "seg_state \<Rightarrow> string list list" where
  "read_bars s = map (store s) (bars s)"

section \<open>The formatter\<close>

datatype error = IndexError

definition ordinals :: "string list" where
  "ordinals = [''first'', ''second'', ''third'', ''fourth'', ''fifth'', ''sixth'', ''seventh'']"

text \<open>\<^verbatim>\<open>[...][i]\<close> for an index \<open>i \<ge> 0\<close>: Python raises IndexError beyond the last entry.\<close>

definition ordinal :: "nat \<Rightarrow> error + string" where
  "ordinal i = (if i < length ordinals then Inr (ordinals ! i) else Inl IndexError)"

text \<open>\<^verbatim>\<open>sep.join(bar)\<close>\<close>

fun join :: "string \<Rightarrow> string list \<Rightarrow> string" where
  "join sep [] = []"
| "join sep [x] = x"
| "join sep (x # y # ys) = x @ sep @ join sep (y # ys)"

text \<open>The two f-strings that render a line, with and without a lyric.\<close>

definition lyric_line_text :: "string \<Rightarrow> string \<Rightarrow> string \<Rightarrow> string" where
  "lyric_line_text w lyric_line line =
    ''The '' @ w @ '' line: '' @ lyric_line @ '', '' @ line @ '',\<newline>''"

definition plain_line_text :: "string \<Rightarrow> string \<Rightarrow> string" where
  "plain_line_text w line = ''The '' @ w @ '' line: '' @ line @ '',\<newline>''"

text \<open>
  \<^verbatim>\<open>for i, bar in enumerate(bars)\<close>, with the caller's lyric list passed through: the
  function returns the text or the error, and the lyric list as the call leaves it.
  \<^verbatim>\<open>lyrics.pop(0)\<close> runs before the f-string looks the ordinal up, so a lyric is
  removed also in the iteration that raises.
\<close>

fun format_bars ::
  "nat \<Rightarrow> string list list \<Rightarrow> string list \<Rightarrow> string \<Rightarrow> (error + string) \<times> string list" where
  "format_bars i [] lyrics result = (Inr result, lyrics)"
| "format_bars i (bar # rest) lyrics result =
    (let line = join '' | '' bar in
     case lyrics of
       lyric_line # lyrics' \<Rightarrow>
         (case ordinal i of
            Inl e \<Rightarrow> (Inl e, lyrics')
          | Inr w \<Rightarrow> format_bars (Suc i) rest lyrics' (result @ lyric_line_text w lyric_line line))
     | [] \<Rightarrow>
         (case ordinal i of
            Inl e \<Rightarrow> (Inl e, lyrics)
          | Inr w \<Rightarrow> format_bars (Suc i) rest lyrics (result @ plain_line_text w line)))"

text \<open>\<^verbatim>\<open>result = f"Total {len(bars)} lines.\n"\<close>\<close>

definition header :: "string list list \<Rightarrow> string" where
  "header bs = ''Total '' @ str_nat (length bs) @ '' lines.\<newline>''"

text \<open>
  The conversion, from the parsed tracks: the returned string or the error, and the
  caller's lyric list after the call.
\<close>

definition midi_to_sc_format ::
  "track list \<Rightarrow> string list \<Rightarrow> int \<Rightarrow> (error + string) \<times> string list" where
  "midi_to_sc_format tracks lyrics ticks_per_bar =
    (let bs = read_bars (segment ticks_per_bar tracks)
     in format_bars 0 bs lyrics (header bs))"


section \<open>Notions used in the statements\<close>

text \<open>
  Example messages: \<^verbatim>\<open>Message('note_on', note=n, velocity=v, time=t)\<close> and a message of
  another type, whose note and velocity the conversion never reads.
\<close>

definition note_on :: "int \<Rightarrow> int \<Rightarrow> int \<Rightarrow> msg" where
  "note_on n v t = \<lparr>msg_type = ''note_on'', msg_note = n, msg_velocity = v, msg_time = t\<rparr>"

definition other_msg :: "string \<Rightarrow> int \<Rightarrow> msg" where
  "other_msg ty t = \<lparr>msg_type = ty, msg_note = 0, msg_velocity = 0, msg_time = t\<rparr>"

text \<open>The number of note tokens in a list of bars, and of note-on events with velocity \<open>> 0\<close>.\<close>

definition token_count :: "string list list \<Rightarrow> nat" where
  "token_count bs = sum_list (map length bs)"

definition note_on_count :: "track list \<Rightarrow> nat" where
  "note_on_count tracks = sum_list (map (\<lambda>t. length (filter is_note_on t)) tracks)"

text \<open>
  The wording of the specification for several tracks: each track segmented on its own,
  from the initial state (\<open>prev_time = 0\<close>, an empty current bar), and the bar lists
  concatenated in track order.
\<close>

definition segment_independently :: "int \<Rightarrow> track list \<Rightarrow> string list list" where
  "segment_independently ticks_per_bar tracks =
    concat (map (\<lambda>t. read_bars (process_track ticks_per_bar t initial_state)) tracks)"

text \<open>
  What the loop over the tracks does with \<^verbatim>\<open>prev_time\<close>: it is set before the loop only,
  so a track starts with the time of the last message before it. \<open>last_time p t\<close> is
  \<^verbatim>\<open>prev_time\<close> after the track \<open>t\<close>, and \<open>segment_carrying\<close> segments each track from
  an empty current bar and the \<^verbatim>\<open>prev_time\<close> carried so far.
\<close>

definition last_time :: "int \<Rightarrow> track \<Rightarrow> int" where
  "last_time p t = (if t = [] then p else msg_time (last t))"

fun segment_carrying :: "int \<Rightarrow> int \<Rightarrow> track list \<Rightarrow> string list list" where
  "segment_carrying ticks_per_bar p [] = []"
| "segment_carrying ticks_per_bar p (t # ts) =
    read_bars (process_track ticks_per_bar t (initial_state\<lparr>prev_time := p\<rparr>))
    @ segment_carrying ticks_per_bar (last_time p t) ts"

text \<open>
  A track ends on a bar boundary when it has no note-on event with velocity \<open>> 0\<close>, or
  the last such event has \<^verbatim>\<open>msg.time >= ticks_per_bar\<close>.
\<close>

definition ends_on_boundary :: "int \<Rightarrow> track \<Rightarrow> bool" where
  "ends_on_boundary ticks_per_bar t =
    (case rev (filter is_note_on t) of [] \<Rightarrow> True | m # ms \<Rightarrow> msg_time m \<ge> ticks_per_bar)"

text \<open>
  Invariants of the segmenter's state. \<open>cur_empty\<close>: the current bar holds no note.
  \<open>unaliased\<close>: the object of \<^verbatim>\<open>current_bar_notes\<close> is not an element of \<^verbatim>\<open>bars\<close>, and
  no address in use is beyond \<open>next_addr\<close>. \<open>sim pre s s'\<close>: two unaliased states with the
  same current bar and \<^verbatim>\<open>prev_time\<close>, the bars of \<open>s\<close> being \<open>pre\<close> followed by those of \<open>s'\<close>.
\<close>

definition cur_empty :: "seg_state \<Rightarrow> bool" where
  "cur_empty s \<longleftrightarrow> store s (current_bar_notes s) = []"

definition unaliased :: "seg_state \<Rightarrow> bool" where
  "unaliased s \<longleftrightarrow>
     current_bar_notes s < next_addr s
     \<and> (\<forall>a \<in> set (bars s). a < next_addr s \<and> a \<noteq> current_bar_notes s)"

definition sim :: "string list list \<Rightarrow> seg_state \<Rightarrow> seg_state \<Rightarrow> bool" where
  "sim pre s s' \<longleftrightarrow>
     unaliased s \<and> unaliased s'
     \<and> store s (current_bar_notes s) = store s' (current_bar_notes s')
     \<and> prev_time s = prev_time s'
     \<and> read_bars s = pre @ read_bars s'"

text \<open>
  The line that the formatter renders for the bar at index \<open>i\<close> of \<open>bs\<close>, when it was
  entered at the ordinal index \<open>k\<close> with the lyric list \<open>lyrics\<close>.
\<close>

definition line_at :: "nat \<Rightarrow> string list list \<Rightarrow> string list \<Rightarrow> nat \<Rightarrow> string" where
  "line_at k bs lyrics i =
    (if i < length lyrics
     then lyric_line_text (ordinals ! (k + i)) (lyrics ! i) (join '' | '' (bs ! i))
     else plain_line_text (ordinals ! (k + i)) (join '' | '' (bs ! i)))"

section \<open>Properties of the note namer\<close>

lemma note_names_keys: "map fst note_names = [60..91]"
  by (simp add: note_names_def upto.simps)

lemma note_names_values_distinct: "distinct (map snd note_names)"
  by (simp add: note_names_def)

lemma note_names_no_sentinel: "''Unknown'' \<notin> snd ` set note_names"
  by (simp add: note_names_def)

lemma distinct_values_key_unique:
  "distinct (map snd xs) \<Longrightarrow> (k, v) \<in> set xs \<Longrightarrow> (k', v) \<in> set xs \<Longrightarrow> k = k'"
  by (induction xs) (auto simp: image_iff)

lemma map_of_note_names_dom: "(map_of note_names n = None) = (n \<notin> {60..91})"
proof -
  have "(map_of note_names n = None) = (n \<notin> set (map fst note_names))"
    by (simp add: map_of_eq_None_iff)
  also have "\<dots> = (n \<notin> set [60..91])"
    by (simp only: note_names_keys)
  finally show ?thesis unfolding set_upto .
qed

lemma midi_note_to_name_outside: "n \<notin> {60..91} \<Longrightarrow> midi_note_to_name n = ''Unknown''"
  using map_of_note_names_dom [of n] by (simp add: midi_note_to_name_def)

lemma midi_note_to_name_inside:
  assumes "n \<in> {60..91}"
  shows "(n, midi_note_to_name n) \<in> set note_names"
proof -
  from assms map_of_note_names_dom [of n] obtain name where "map_of note_names n = Some name"
    by auto
  then show ?thesis by (simp add: midi_note_to_name_def map_of_SomeD)
qed

lemma midi_note_to_name_chromatic:
  "\<forall>n \<in> set [60..91]. midi_note_to_name n = chromatic_name n"
  by code_simp

text \<open>
  Claim C5. For every integer \<open>n\<close> of 60..91 the note namer returns a name other than
  "Unknown", the name of the chromatic scale (sharps only) from C4 at 60 to G6 at 91,
  and no two integers of that range have the same name; for every integer outside
  60..91 it returns "Unknown".
\<close>

theorem midi_note_to_name_range:
  "(\<forall>n \<in> {60..91}. midi_note_to_name n \<noteq> ''Unknown'' \<and> midi_note_to_name n = chromatic_name n)
   \<and> inj_on midi_note_to_name {60..91}
   \<and> (\<forall>n. n \<notin> {60..91} \<longrightarrow> midi_note_to_name n = ''Unknown'')"
proof (intro conjI ballI allI impI)
  fix n :: int assume n: "n \<in> {60..91}"
  from midi_note_to_name_inside [OF n] have "midi_note_to_name n \<in> snd ` set note_names"
    by force
  with note_names_no_sentinel show "midi_note_to_name n \<noteq> ''Unknown''" by metis
  from n have "n \<in> set [60..91]" by (simp only: set_upto)
  with midi_note_to_name_chromatic show "midi_note_to_name n = chromatic_name n" by (rule bspec)
next
  show "inj_on midi_note_to_name {60..91}"
  proof (rule inj_onI)
    fix n m :: int
    assume n: "n \<in> {60..91}" and m: "m \<in> {60..91}"
      and eq: "midi_note_to_name n = midi_note_to_name m"
    from midi_note_to_name_inside [OF n] midi_note_to_name_inside [OF m] eq
    have "(n, midi_note_to_name n) \<in> set note_names" "(m, midi_note_to_name n) \<in> set note_names"
      by simp_all
    then show "n = m"
      by (rule distinct_values_key_unique [OF note_names_values_distinct])
  qed
next
  fix n :: int assume "n \<notin> {60..91}"
  then show "midi_note_to_name n = ''Unknown''" by (rule midi_note_to_name_outside)
qed

theorem midi_note_to_name_range_witness:
  "(60::int) \<in> {60..91} \<and> (61::int) \<in> {60..91}
   \<and> midi_note_to_name 60 \<noteq> ''Unknown'' \<and> midi_note_to_name 60 = chromatic_name 60
   \<and> midi_note_to_name 60 \<noteq> midi_note_to_name 61
   \<and> (92::int) \<notin> {60..91} \<and> midi_note_to_name 92 = ''Unknown''"
proof -
  have a: "(60::int) \<in> {60..91}" and b: "(61::int) \<in> {60..91}" and c: "(92::int) \<notin> {60..91}"
    by simp_all
  note r = midi_note_to_name_range
  from r a have "midi_note_to_name 60 \<noteq> ''Unknown'' \<and> midi_note_to_name 60 = chromatic_name 60"
    by blast
  moreover from r have "inj_on midi_note_to_name {60..91}" by blast
  with a b have "midi_note_to_name 60 \<noteq> midi_note_to_name 61"
    by (auto dest: inj_onD)
  moreover from r c have "midi_note_to_name 92 = ''Unknown''" by blast
  ultimately show ?thesis using a b c by blast
qed

section \<open>Properties of the duration quantizer\<close>

text \<open>
  Claim C4. For every tick delta \<open>d \<ge> 0\<close> the quantizer returns 79 if \<open>d < 10\<close>, 512 if
  \<open>d > 500\<close> and otherwise \<open>d div 10\<close> (the floor of \<open>d / 10\<close>), which is then between
  1 and 50; at 5, 9, 10, 500, 501 and 10000 it returns 79, 79, 1, 50, 512 and 512.
\<close>

theorem convert_ticks_to_duration_nonneg:
  "0 \<le> d \<Longrightarrow>
     convert_ticks_to_duration d = (if d < 10 then 79 else if d > 500 then 512 else d div 10)
     \<and> (\<not> d < 10 \<and> \<not> d > 500 \<longrightarrow>
          1 \<le> convert_ticks_to_duration d \<and> convert_ticks_to_duration d \<le> 50)
     \<and> convert_ticks_to_duration 5 = 79 \<and> convert_ticks_to_duration 9 = 79
     \<and> convert_ticks_to_duration 10 = 1 \<and> convert_ticks_to_duration 500 = 50
     \<and> convert_ticks_to_duration 501 = 512 \<and> convert_ticks_to_duration 10000 = 512"
  by (simp add: convert_ticks_to_duration_def int_truediv_def) presburger

theorem convert_ticks_to_duration_nonneg_witness:
  "(0::int) \<le> 123 \<and> convert_ticks_to_duration 123 = 12"
  using convert_ticks_to_duration_nonneg [of 123] by simp

text \<open>
  Claim C3, as stated: for a negative tick delta \<open>d\<close> the quantizer returns the floor of
  \<open>d / 10\<close>, a negative token. At \<open>d = -380\<close> the floor is \<open>-38\<close> and the quantizer
  returns 79.
\<close>

theorem convert_ticks_to_duration_negative_counterexample:
  "convert_ticks_to_duration (- 380) = 79 \<and> (- 380 :: int) div 10 = - 38
   \<and> convert_ticks_to_duration (- 380) \<noteq> (- 380) div 10
   \<and> \<not> convert_ticks_to_duration (- 380) < 0"
  by (simp add: convert_ticks_to_duration_def)

text \<open>
  Claim C3, amended: every negative tick delta is below 10, so the first test of the
  quantizer holds and it returns the token 79; no error is raised and no negative token
  is produced.
\<close>

theorem convert_ticks_to_duration_negative:
  "d < 0 \<Longrightarrow> convert_ticks_to_duration d = 79 \<and> \<not> convert_ticks_to_duration d < 0"
  by (simp add: convert_ticks_to_duration_def)

theorem convert_ticks_to_duration_negative_witness:
  "(- 380 :: int) < 0 \<and> convert_ticks_to_duration (- 380) = 79"
  using convert_ticks_to_duration_negative [of "- 380"] by simp


section \<open>Properties of the formatter\<close>

lemma ordinal_lt: "i < 7 \<Longrightarrow> ordinal i = Inr (ordinals ! i)"
  by (simp add: ordinal_def ordinals_def)

lemma ordinal_ge: "7 \<le> i \<Longrightarrow> ordinal i = Inl IndexError"
  by (simp add: ordinal_def ordinals_def)

lemma line_at_Cons_Suc:
  "line_at k (b # bs) (x # lyrics) (Suc j) = line_at (Suc k) bs lyrics j"
  "line_at k (b # bs) [] (Suc j) = line_at (Suc k) bs [] j"
  by (simp_all add: line_at_def)

lemma line_at_0:
  "line_at 0 bs lyrics =
    (\<lambda>i. if i < length lyrics
         then lyric_line_text (ordinals ! i) (lyrics ! i) (join '' | '' (bs ! i))
         else plain_line_text (ordinals ! i) (join '' | '' (bs ! i)))"
  by (rule ext) (simp add: line_at_def)

text \<open>
  While the ordinal indices stay below 7 the loop completes: it appends one line for each
  bar and removes one lyric for each bar, as long as there are lyrics.
\<close>

lemma format_bars_completes:
  "k + length bs \<le> 7 \<Longrightarrow>
   format_bars k bs lyrics result =
     (Inr (result @ concat (map (line_at k bs lyrics) [0..<length bs])), drop (length bs) lyrics)"
proof (induction bs arbitrary: k lyrics result)
  case Nil
  show ?case by simp
next
  case (Cons b bs)
  from Cons.prems have k: "k < 7" and rest: "Suc k + length bs \<le> 7" by simp_all
  show ?case
  proof (cases lyrics)
    case Nil
    have "format_bars k (b # bs) [] result
          = format_bars (Suc k) bs [] (result @ plain_line_text (ordinals ! k) (join '' | '' b))"
      by (simp add: ordinal_lt [OF k])
    also note Cons.IH [OF rest]
    finally show ?thesis
      unfolding Nil length_Cons map_upt_Suc
      by (simp add: line_at_Cons_Suc) (simp add: line_at_def)
  next
    case (Cons x lyrics')
    have "format_bars k (b # bs) (x # lyrics') result
          = format_bars (Suc k) bs lyrics' (result @ lyric_line_text (ordinals ! k) x (join '' | '' b))"
      by (simp add: ordinal_lt [OF k])
    also note Cons.IH [OF rest]
    finally show ?thesis
      unfolding Cons length_Cons map_upt_Suc
      by (simp add: line_at_Cons_Suc) (simp add: line_at_def)
  qed
qed

text \<open>
  With a bar at ordinal index 7 the loop raises there, after the \<^verbatim>\<open>pop\<close> of that
  iteration: entered at index \<open>k\<close>, it has removed \<open>8 - k\<close> lyrics (or all there were).
\<close>

lemma format_bars_raises:
  "k \<le> 7 \<Longrightarrow> 7 < k + length bs \<Longrightarrow>
   format_bars k bs lyrics result = (Inl IndexError, drop (8 - k) lyrics)"
proof (induction bs arbitrary: k lyrics result)
  case Nil
  then show ?case by simp
next
  case (Cons b bs)
  show ?case
  proof (cases "k = 7")
    case True
    then show ?thesis by (cases lyrics) (simp_all add: ordinal_ge)
  next
    case False
    with Cons.prems have k: "k < 7" and a: "Suc k \<le> 7" and c: "7 < Suc k + length bs"
      by simp_all
    from k have d: "8 - k = Suc (8 - Suc k)" by simp
    show ?thesis
      by (cases lyrics) (simp_all add: ordinal_lt [OF k] Cons.IH [OF a c] d del: One_nat_def)
  qed
qed

lemma midi_to_sc_format_bars:
  "bs = read_bars (segment ticks_per_bar tracks) \<Longrightarrow>
   midi_to_sc_format tracks lyrics ticks_per_bar = format_bars 0 bs lyrics (header bs)"
  by (simp add: midi_to_sc_format_def Let_def)

lemma scenario_bars:
  "read_bars (segment 480 [[note_on 60 64 0, note_on 64 64 480, note_on 67 64 100]])
   = [[''<C4>,<79>'', ''<E4>,<48>''], [''<G4>,<79>'']]"
  by code_simp

text \<open>
  Claim C7. With \<open>bs\<close> the bars that the conversion produces: the call fails with
  IndexError at the ordinal lookup exactly when there are more than 7 bars; with at most
  7 bars it returns a text, the header followed by one line for each bar, the line of
  the bar at index \<open>i\<close> carrying the \<open>i\<close>-th word of the list of ordinals.
\<close>

theorem formatter_index_error:
  "bs = read_bars (segment ticks_per_bar tracks) \<Longrightarrow>
   (fst (midi_to_sc_format tracks lyrics ticks_per_bar) = Inl IndexError) = (7 < length bs)
   \<and> (length bs \<le> 7 \<longrightarrow>
        fst (midi_to_sc_format tracks lyrics ticks_per_bar) =
          Inr (header bs @ concat (map (\<lambda>i.
                 if i < length lyrics
                 then lyric_line_text (ordinals ! i) (lyrics ! i) (join '' | '' (bs ! i))
                 else plain_line_text (ordinals ! i) (join '' | '' (bs ! i))) [0..<length bs])))"
proof (cases "length bs \<le> 7")
  case True
  assume bs: "bs = read_bars (segment ticks_per_bar tracks)"
  from True have "0 + length bs \<le> 7" by simp
  with True show ?thesis
    by (simp add: midi_to_sc_format_bars [OF bs] format_bars_completes line_at_0)
next
  case False
  assume bs: "bs = read_bars (segment ticks_per_bar tracks)"
  from False have "7 < 0 + length bs" by simp
  with False show ?thesis
    by (simp add: midi_to_sc_format_bars [OF bs] format_bars_raises)
qed

theorem formatter_index_error_witness:
  "length (read_bars (segment 480 [[note_on 60 64 0, note_on 64 64 480, note_on 67 64 100]])) \<le> 7
   \<and> fst (midi_to_sc_format [[note_on 60 64 0, note_on 64 64 480, note_on 67 64 100]] [''la la''] 480)
      = Inr (''Total 2 lines.\<newline>''
             @ ''The '' @ ordinals ! 0 @ '' line: la la, <C4>,<79> | <E4>,<48>,\<newline>''
             @ ''The '' @ ordinals ! 1 @ '' line: <G4>,<79>,\<newline>'')
   \<and> 7 < length (read_bars (segment 480 [replicate 8 (note_on 60 64 480)]))
   \<and> fst (midi_to_sc_format [replicate 8 (note_on 60 64 480)] [] 480) = Inl IndexError"
proof -
  note a = scenario_bars
  have b: "length (read_bars (segment 480 [replicate 8 (note_on 60 64 480)])) = 8"
    by code_simp
  have u: "[0..<2] = [0, 1]" by code_simp
  from formatter_index_error [OF a [symmetric], of "[''la la'']"]
    formatter_index_error [of _ 480 "[replicate 8 (note_on 60 64 480)]" "[]", OF refl] b
  show ?thesis
    by (simp add: a header_def str_nat.simps lyric_line_text_def plain_line_text_def u)
qed

text \<open>
  Claim C8, as stated: whenever the lyric list has at most as many entries as there are
  bars, it is empty after the call. With nine bars and nine lyrics the call raises at
  the eighth bar, having removed eight lyrics: the ninth is still in the list.
\<close>

theorem lyrics_consumed_counterexample:
  "length (read_bars (segment 480 [replicate 9 (note_on 60 64 480)])) = 9
   \<and> length [''a'', ''b'', ''c'', ''d'', ''e'', ''f'', ''g'', ''h'', ''i''] \<le> 9
   \<and> midi_to_sc_format [replicate 9 (note_on 60 64 480)]
        [''a'', ''b'', ''c'', ''d'', ''e'', ''f'', ''g'', ''h'', ''i''] 480
      = (Inl IndexError, [''i''])"
  by code_simp

text \<open>
  Claim C8, amended: for every input that produces at most 7 bars and whose lyric list
  has at most as many entries as there are bars, the text is the header, then one line
  with a lyric for each of the first \<open>length lyrics\<close> bars, the lyrics taken front to
  back, then one line without a lyric for each remaining bar; and the lyric list is empty
  after the call.
\<close>

theorem lyrics_consumed:
  "bs = read_bars (segment ticks_per_bar tracks) \<Longrightarrow> length bs \<le> 7 \<Longrightarrow>
   length lyrics \<le> length bs \<Longrightarrow>
   midi_to_sc_format tracks lyrics ticks_per_bar =
     (Inr (header bs
           @ concat (map (\<lambda>i. lyric_line_text (ordinals ! i) (lyrics ! i) (join '' | '' (bs ! i)))
                       [0..<length lyrics])
           @ concat (map (\<lambda>i. plain_line_text (ordinals ! i) (join '' | '' (bs ! i)))
                       [length lyrics..<length bs])),
      [])"
proof -
  assume bs: "bs = read_bars (segment ticks_per_bar tracks)" and n: "length bs \<le> 7"
    and l: "length lyrics \<le> length bs"
  from l have split: "[0..<length bs] = [0..<length lyrics] @ [length lyrics..<length bs]"
    using upt_add_eq_append [of 0 "length lyrics" "length bs - length lyrics"] by simp
  have a: "map (line_at 0 bs lyrics) [0..<length lyrics]
           = map (\<lambda>i. lyric_line_text (ordinals ! i) (lyrics ! i) (join '' | '' (bs ! i)))
               [0..<length lyrics]"
    by (rule map_cong) (simp_all add: line_at_def)
  have b: "map (line_at 0 bs lyrics) [length lyrics..<length bs]
           = map (\<lambda>i. plain_line_text (ordinals ! i) (join '' | '' (bs ! i)))
               [length lyrics..<length bs]"
    by (rule map_cong) (simp_all add: line_at_def)
  from n have "0 + length bs \<le> 7" by simp
  then have "midi_to_sc_format tracks lyrics ticks_per_bar =
      (Inr (header bs @ concat (map (line_at 0 bs lyrics) [0..<length bs])),
       drop (length bs) lyrics)"
    by (simp only: midi_to_sc_format_bars [OF bs] format_bars_completes)
  also have "map (line_at 0 bs lyrics) [0..<length bs]
      = map (\<lambda>i. lyric_line_text (ordinals ! i) (lyrics ! i) (join '' | '' (bs ! i)))
          [0..<length lyrics]
        @ map (\<lambda>i. plain_line_text (ordinals ! i) (join '' | '' (bs ! i)))
            [length lyrics..<length bs]"
    by (simp only: split map_append a b)
  finally show ?thesis using l by simp
qed

theorem lyrics_consumed_witness:
  "length (read_bars (segment 480 [[note_on 60 64 0, note_on 64 64 480, note_on 67 64 100]])) \<le> 7
   \<and> length [''la la'']
       \<le> length (read_bars (segment 480 [[note_on 60 64 0, note_on 64 64 480, note_on 67 64 100]]))
   \<and> midi_to_sc_format [[note_on 60 64 0, note_on 64 64 480, note_on 67 64 100]] [''la la''] 480
      = (Inr (''Total 2 lines.\<newline>''
              @ ''The '' @ ordinals ! 0 @ '' line: la la, <C4>,<79> | <E4>,<48>,\<newline>''
              @ ''The '' @ ordinals ! 1 @ '' line: <G4>,<79>,\<newline>''), [])"
proof -
  note a = scenario_bars
  have u: "[1..<2] = [1]" "[0..<1] = [0]" by code_simp+
  from lyrics_consumed [OF a [symmetric], of "[''la la'']"]
  show ?thesis
    by (simp add: a header_def str_nat.simps lyric_line_text_def plain_line_text_def u)
qed

text \<open>
  Claim C9, as stated: when the lyric list has more entries than the number \<open>N\<close> of bars,
  the list after the call is the suffix from index \<open>N\<close>. With nine bars and ten lyrics
  the call raises at the eighth bar: eight lyrics are removed, and the list is the
  suffix from index 8, not from index 9.
\<close>

theorem lyrics_suffix_left_counterexample:
  "length (read_bars (segment 480 [replicate 9 (note_on 60 64 480)])) = 9
   \<and> 9 < length [''a'', ''b'', ''c'', ''d'', ''e'', ''f'', ''g'', ''h'', ''i'', ''j'']
   \<and> snd (midi_to_sc_format [replicate 9 (note_on 60 64 480)]
        [''a'', ''b'', ''c'', ''d'', ''e'', ''f'', ''g'', ''h'', ''i'', ''j''] 480)
      = [''i'', ''j'']
   \<and> drop 9 [''a'', ''b'', ''c'', ''d'', ''e'', ''f'', ''g'', ''h'', ''i'', ''j''] = [''j'']"
  by code_simp

text \<open>
  Claim C9, amended: when the lyric list has more entries than the number \<open>N\<close> of bars
  produced and \<open>N \<le> 7\<close>, the call completes and the list after it is the original
  list's suffix from index \<open>N\<close>, in the original order. In general the list after the call
  is the suffix from index \<open>min N 8\<close>: with more than 7 bars the call raises after
  removing eight lyrics.
\<close>

theorem lyrics_suffix_left:
  "bs = read_bars (segment ticks_per_bar tracks) \<Longrightarrow> length bs < length lyrics \<Longrightarrow>
   snd (midi_to_sc_format tracks lyrics ticks_per_bar) = drop (min (length bs) 8) lyrics
   \<and> (length bs \<le> 7 \<longrightarrow>
        fst (midi_to_sc_format tracks lyrics ticks_per_bar) \<noteq> Inl IndexError
        \<and> snd (midi_to_sc_format tracks lyrics ticks_per_bar) = drop (length bs) lyrics)"
proof (cases "length bs \<le> 7")
  case True
  assume bs: "bs = read_bars (segment ticks_per_bar tracks)"
  from True have "0 + length bs \<le> 7" by simp
  with True show ?thesis
    by (simp add: midi_to_sc_format_bars [OF bs] format_bars_completes)
next
  case False
  assume bs: "bs = read_bars (segment ticks_per_bar tracks)"
  from False have "7 < 0 + length bs" by simp
  with False show ?thesis
    by (simp add: midi_to_sc_format_bars [OF bs] format_bars_raises)
qed

theorem lyrics_suffix_left_witness:
  "length (read_bars (segment 480 [[note_on 60 64 0, note_on 64 64 480, note_on 67 64 100]]))
     < length [''a'', ''b'', ''c'']
   \<and> length (read_bars (segment 480 [[note_on 60 64 0, note_on 64 64 480, note_on 67 64 100]])) \<le> 7
   \<and> snd (midi_to_sc_format [[note_on 60 64 0, note_on 64 64 480, note_on 67 64 100]]
            [''a'', ''b'', ''c''] 480) = [''c'']"
proof -
  note a = scenario_bars
  from lyrics_suffix_left [OF a [symmetric], of "[''a'', ''b'', ''c'']"]
  show ?thesis
    by (simp add: a)
qed

section \<open>Properties of the bar segmenter\<close>

lemma map_upd_notin: "a \<notin> set xs \<Longrightarrow> map (f(a := v)) xs = map f xs"
  by (induction xs) auto

lemma initial_state_ok:
  "unaliased initial_state" "cur_empty initial_state"
  "read_bars initial_state = []" "prev_time initial_state = 0"
  by (simp_all add: unaliased_def cur_empty_def initial_state_def read_bars_def)

subsection \<open>One message\<close>

lemma unaliased_process_msg: "unaliased s \<Longrightarrow> unaliased (process_msg tpb m s)"
  by (auto simp: unaliased_def process_msg_def append_note_def push_bar_def new_bar_def Let_def)

lemma unaliased_append_note: "unaliased s \<Longrightarrow> unaliased (append_note x s)"
  by (simp add: unaliased_def append_note_def)

lemma read_bars_append_note: "unaliased s \<Longrightarrow> read_bars (append_note x s) = read_bars s"
  by (auto simp: unaliased_def read_bars_def append_note_def intro!: map_upd_notin)

lemma read_bars_push_bar:
  "read_bars (push_bar s) = read_bars s @ [store s (current_bar_notes s)]"
  by (simp add: read_bars_def push_bar_def)

lemma read_bars_new_bar_push:
  assumes "unaliased s"
  shows "read_bars (new_bar (push_bar s)) = read_bars s @ [store s (current_bar_notes s)]"
proof -
  from assms have "next_addr s \<notin> set (bars s)" "next_addr s \<noteq> current_bar_notes s"
    by (auto simp: unaliased_def)
  then show ?thesis
    by (simp add: read_bars_def new_bar_def push_bar_def map_upd_notin)
qed

text \<open>
  While the current bar is not aliased, a message changes the bars only by closing the
  current bar, and the finished bars stay as they were.
\<close>

lemma read_bars_process_msg:
  assumes "unaliased s"
  shows "read_bars (process_msg tpb m s) =
     (if is_note_on m \<and> tpb \<le> msg_time m
      then read_bars s @ [store s (current_bar_notes s) @ [note_duration (prev_time s) m]]
      else read_bars s)"
proof -
  have p: "read_bars (s'\<lparr>prev_time := q\<rparr>) = read_bars s'" for s' q
    by (simp add: read_bars_def)
  from assms show ?thesis
    by (simp add: process_msg_def Let_def p read_bars_append_note
        read_bars_new_bar_push [OF unaliased_append_note]) (simp add: append_note_def)
qed

lemma cur_process_msg:
  "store (process_msg tpb m s) (current_bar_notes (process_msg tpb m s)) =
     (if is_note_on m
      then (if tpb \<le> msg_time m then []
            else store s (current_bar_notes s) @ [note_duration (prev_time s) m])
      else store s (current_bar_notes s))"
  by (simp add: process_msg_def Let_def append_note_def push_bar_def new_bar_def)

lemma prev_time_process_msg: "prev_time (process_msg tpb m s) = msg_time m"
  by (simp add: process_msg_def Let_def)

lemma process_msg_other: "\<not> is_note_on m \<Longrightarrow> process_msg tpb m s = s\<lparr>prev_time := msg_time m\<rparr>"
  by (simp add: process_msg_def)

lemma sim_process_msg: "sim pre s s' \<Longrightarrow> sim pre (process_msg tpb m s) (process_msg tpb m s')"
  by (simp add: sim_def unaliased_process_msg read_bars_process_msg cur_process_msg
      prev_time_process_msg)

lemma token_count_process_msg:
  assumes "unaliased s"
  shows "token_count (read_bars (process_msg tpb m s))
         + length (store (process_msg tpb m s) (current_bar_notes (process_msg tpb m s)))
       = token_count (read_bars s) + length (store s (current_bar_notes s))
         + (if is_note_on m then 1 else 0)"
  by (simp add: read_bars_process_msg [OF assms] cur_process_msg token_count_def)

subsection \<open>The messages of a track\<close>

lemma unaliased_fold: "unaliased s \<Longrightarrow> unaliased (fold (process_msg tpb) t s)"
  by (induction t arbitrary: s) (simp_all add: unaliased_process_msg)

lemma sim_fold:
  "sim pre s s' \<Longrightarrow> sim pre (fold (process_msg tpb) t s) (fold (process_msg tpb) t s')"
  by (induction t arbitrary: s s') (simp_all add: sim_process_msg)

lemma prev_time_fold: "prev_time (fold (process_msg tpb) t s) = last_time (prev_time s) t"
  by (induction t arbitrary: s) (auto simp: last_time_def prev_time_process_msg)

lemma cur_empty_fold:
  "cur_empty (fold (process_msg tpb) t s) =
     (case rev (filter is_note_on t) of [] \<Rightarrow> cur_empty s | m # ms \<Rightarrow> tpb \<le> msg_time m)"
proof (induction t rule: rev_induct)
  case Nil
  show ?case by simp
next
  case (snoc m t)
  show ?case
    using snoc.IH by (simp add: cur_empty_def cur_process_msg)
qed

lemma token_count_fold:
  "unaliased s \<Longrightarrow>
   token_count (read_bars (fold (process_msg tpb) t s))
     + length (store (fold (process_msg tpb) t s) (current_bar_notes (fold (process_msg tpb) t s)))
   = token_count (read_bars s) + length (store s (current_bar_notes s))
     + length (filter is_note_on t)"
proof (induction t arbitrary: s)
  case Nil
  show ?case by simp
next
  case (Cons m t)
  from Cons.IH [OF unaliased_process_msg [OF Cons.prems], of tpb m]
    token_count_process_msg [OF Cons.prems, of tpb m]
  show ?case by simp
qed

lemma fold_no_note_on:
  "\<forall>m \<in> set t. \<not> is_note_on m \<Longrightarrow>
   bars (fold (process_msg tpb) t s) = bars s
   \<and> cur_empty (fold (process_msg tpb) t s) = cur_empty s"
  by (induction t arbitrary: s) (simp_all add: process_msg_other cur_empty_def)

subsection \<open>A track and its final append\<close>

lemma prev_time_process_track: "prev_time (process_track tpb t s) = last_time (prev_time s) t"
  by (simp add: process_track_def Let_def push_bar_def prev_time_fold)

lemma sim_process_track:
  assumes "sim pre s s'"
  shows "read_bars (process_track tpb t s) = pre @ read_bars (process_track tpb t s')"
proof -
  from sim_fold [OF assms, of tpb t] show ?thesis
    by (simp add: process_track_def Let_def sim_def read_bars_push_bar)
qed

lemma sim_fresh:
  "unaliased s \<Longrightarrow> cur_empty s \<Longrightarrow>
   sim (read_bars s) s (initial_state\<lparr>prev_time := prev_time s\<rparr>)"
  by (simp add: sim_def cur_empty_def initial_state_def unaliased_def read_bars_def)

text \<open>
  A track that ends on a bar boundary leaves the current bar empty: the final append
  does not run, and the state stays unaliased.
\<close>

lemma process_track_boundary:
  assumes "cur_empty s" and "ends_on_boundary tpb t"
  shows "process_track tpb t s = fold (process_msg tpb) t s"
    and "cur_empty (process_track tpb t s)"
proof -
  from assms have e: "cur_empty (fold (process_msg tpb) t s)"
    by (simp add: cur_empty_fold ends_on_boundary_def split: list.splits)
  then show "process_track tpb t s = fold (process_msg tpb) t s"
    by (simp add: process_track_def Let_def cur_empty_def)
  with e show "cur_empty (process_track tpb t s)" by simp
qed

lemma token_count_process_track:
  assumes "unaliased s" and "cur_empty s"
  shows "token_count (read_bars (process_track tpb t s))
         = token_count (read_bars s) + length (filter is_note_on t)"
proof -
  from token_count_fold [OF assms(1), of tpb t] assms(2) show ?thesis
    by (auto simp: process_track_def Let_def read_bars_push_bar token_count_def cur_empty_def)
qed

lemma process_track_no_note_on:
  "\<forall>m \<in> set t. \<not> is_note_on m \<Longrightarrow> bars s = [] \<Longrightarrow> cur_empty s \<Longrightarrow>
   bars (process_track tpb t s) = [] \<and> cur_empty (process_track tpb t s)"
  using fold_no_note_on [of t tpb s]
  by (simp add: process_track_def Let_def cur_empty_def)

subsection \<open>The tracks of a file\<close>

lemma fold_tracks_no_note_on:
  "\<forall>t \<in> set tracks. \<forall>m \<in> set t. \<not> is_note_on m \<Longrightarrow> bars s = [] \<Longrightarrow> cur_empty s \<Longrightarrow>
   bars (fold (process_track tpb) tracks s) = []"
  by (induction tracks arbitrary: s) (simp_all add: process_track_no_note_on)

lemma fold_tracks_carrying:
  "unaliased s \<Longrightarrow> cur_empty s \<Longrightarrow> \<forall>t \<in> set (butlast tracks). ends_on_boundary tpb t \<Longrightarrow>
   read_bars (fold (process_track tpb) tracks s)
   = read_bars s @ segment_carrying tpb (prev_time s) tracks"
proof (induction tracks arbitrary: s)
  case Nil
  show ?case by simp
next
  case (Cons t ts)
  note step = sim_process_track [OF sim_fresh [OF Cons.prems(1,2)], of tpb t]
  show ?case
  proof (cases "ts = []")
    case True
    with step show ?thesis by simp
  next
    case False
    with Cons.prems(3) have b: "ends_on_boundary tpb t"
      and rest: "\<forall>t \<in> set (butlast ts). ends_on_boundary tpb t"
      by simp_all
    note pt = process_track_boundary [OF Cons.prems(2) b]
    have u: "unaliased (process_track tpb t s)"
      by (simp add: pt(1) unaliased_fold Cons.prems(1))
    from Cons.IH [OF u pt(2) rest] step show ?thesis
      by (simp add: prev_time_process_track)
  qed
qed

lemma fold_tracks_token_count:
  "unaliased s \<Longrightarrow> cur_empty s \<Longrightarrow> \<forall>t \<in> set (butlast tracks). ends_on_boundary tpb t \<Longrightarrow>
   token_count (read_bars (fold (process_track tpb) tracks s))
   = token_count (read_bars s) + note_on_count tracks"
proof (induction tracks arbitrary: s)
  case Nil
  show ?case by (simp add: note_on_count_def)
next
  case (Cons t ts)
  note step = token_count_process_track [OF Cons.prems(1,2), of tpb t]
  show ?case
  proof (cases "ts = []")
    case True
    with step show ?thesis by (simp add: note_on_count_def)
  next
    case False
    with Cons.prems(3) have b: "ends_on_boundary tpb t"
      and rest: "\<forall>t \<in> set (butlast ts). ends_on_boundary tpb t"
      by simp_all
    note pt = process_track_boundary [OF Cons.prems(2) b]
    have u: "unaliased (process_track tpb t s)"
      by (simp add: pt(1) unaliased_fold Cons.prems(1))
    from Cons.IH [OF u pt(2) rest] step show ?thesis
      by (simp add: note_on_count_def)
  qed
qed

text \<open>
  Where the current bar is never aliased (a single track; several tracks of which each
  but the last ends on a bar boundary) every note-on event with velocity \<open>> 0\<close> gives
  exactly one token of the returned bars.
\<close>

lemma token_count_segment:
  "\<forall>t \<in> set (butlast tracks). ends_on_boundary ticks_per_bar t \<Longrightarrow>
   token_count (read_bars (segment ticks_per_bar tracks)) = note_on_count tracks"
  using fold_tracks_token_count [OF initial_state_ok(1,2), of tracks ticks_per_bar]
  by (simp add: segment_def initial_state_ok token_count_def)

lemma token_count_single_track:
  "token_count (read_bars (segment ticks_per_bar [t])) = length (filter is_note_on t)"
  using token_count_segment [of "[t]" ticks_per_bar] by (simp add: note_on_count_def)

text \<open>
  Claim C1, as stated: the bars of a multi-track input are the concatenation of the bars
  of each track segmented from the initial state. With two tracks of one note each at
  time 480, the second note has the delta \<open>480 - 480 = 0\<close> in the conversion, token 79,
  and the delta \<open>480 - 0\<close>, token 48, when its track is segmented on its own.
\<close>

theorem segment_independently_counterexample:
  "read_bars (segment 480 [[note_on 60 64 480], [note_on 62 64 480]])
     = [[''<C4>,<48>''], [''<D4>,<79>'']]
   \<and> segment_independently 480 [[note_on 60 64 480], [note_on 62 64 480]]
     = [[''<C4>,<48>''], [''<D4>,<48>'']]
   \<and> read_bars (segment 480 [[note_on 60 64 480], [note_on 62 64 480]])
     \<noteq> segment_independently 480 [[note_on 60 64 480], [note_on 62 64 480]]"
  by code_simp

text \<open>
  Claim C1, amended: for every multi-track input in which each track but the last ends
  on a bar boundary, the bars returned are the concatenation, in track order, of the
  bars obtained by segmenting each track from an empty current bar and from the
  \<^verbatim>\<open>prev_time\<close> that the tracks before it left (0 for the first track).
\<close>

theorem segment_tracks_carrying:
  "\<forall>t \<in> set (butlast tracks). ends_on_boundary ticks_per_bar t \<Longrightarrow>
   read_bars (segment ticks_per_bar tracks) = segment_carrying ticks_per_bar 0 tracks"
  using fold_tracks_carrying [OF initial_state_ok(1,2), of tracks ticks_per_bar]
  by (simp add: segment_def initial_state_ok)

theorem segment_tracks_carrying_witness:
  "list_all (ends_on_boundary 480)
     (butlast [[note_on 60 64 480], [], [note_on 62 64 480, note_on 64 64 100]])
   \<and> read_bars (segment 480 [[note_on 60 64 480], [], [note_on 62 64 480, note_on 64 64 100]])
     = segment_carrying 480 0 [[note_on 60 64 480], [], [note_on 62 64 480, note_on 64 64 100]]
   \<and> segment_carrying 480 0 [[note_on 60 64 480], [], [note_on 62 64 480, note_on 64 64 100]]
     = [[''<C4>,<48>''], [''<D4>,<79>''], [''<E4>,<79>'']]"
proof -
  have h: "\<forall>t \<in> set (butlast [[note_on 60 64 480], [], [note_on 62 64 480, note_on 64 64 100]]).
      ends_on_boundary 480 t"
    by code_simp
  have v: "segment_carrying 480 0 [[note_on 60 64 480], [], [note_on 62 64 480, note_on 64 64 100]]
     = [[''<C4>,<48>''], [''<D4>,<79>''], [''<E4>,<79>'']]"
    by code_simp
  from h segment_tracks_carrying [OF h] v show ?thesis
    unfolding list_all_iff by blast
qed

text \<open>
  Claim C2 at an input of two tracks with one note each. After the first track the
  final append puts the object of \<^verbatim>\<open>current_bar_notes\<close> into \<^verbatim>\<open>bars\<close> and the
  variable keeps it; the note of the second track is appended to that same object, and
  the final append of the second track puts it into \<^verbatim>\<open>bars\<close> once more. Two note-on
  events give two bars of two tokens each.
\<close>

theorem token_count_aliased_bar:
  "note_on_count [[note_on 60 64 0, other_msg ''end_of_track'' 0],
                  [note_on 64 64 0, other_msg ''end_of_track'' 0]] = 2
   \<and> read_bars (segment 480 [[note_on 60 64 0, other_msg ''end_of_track'' 0],
                              [note_on 64 64 0, other_msg ''end_of_track'' 0]])
      = [[''<C4>,<79>'', ''<E4>,<79>''], [''<C4>,<79>'', ''<E4>,<79>'']]
   \<and> token_count (read_bars (segment 480 [[note_on 60 64 0, other_msg ''end_of_track'' 0],
                                            [note_on 64 64 0, other_msg ''end_of_track'' 0]])) = 4"
  by code_simp

section \<open>Properties of the conversion\<close>

lemma header_empty: "header [] = ''Total 0 lines.\<newline>''"
  by (simp add: header_def str_nat.simps)

text \<open>
  Claim C10. For every input with no note-on event of velocity \<open>> 0\<close> (no tracks, empty
  tracks, other messages only) the conversion returns the text "Total 0 lines." with its
  newline, and the lyric list is as it was.
\<close>

theorem no_note_on_total_0:
  "\<forall>t \<in> set tracks. \<forall>m \<in> set t. \<not> is_note_on m \<Longrightarrow>
   midi_to_sc_format tracks lyrics ticks_per_bar = (Inr ''Total 0 lines.\<newline>'', lyrics)"
proof -
  assume a: "\<forall>t \<in> set tracks. \<forall>m \<in> set t. \<not> is_note_on m"
  have "bars (segment ticks_per_bar tracks) = []"
    unfolding segment_def
    by (rule fold_tracks_no_note_on [OF a]) (simp_all add: initial_state_def cur_empty_def)
  then have "read_bars (segment ticks_per_bar tracks) = []"
    by (simp add: read_bars_def)
  then show ?thesis
    by (simp add: midi_to_sc_format_def header_empty)
qed

theorem no_note_on_total_0_witness:
  "list_all (list_all (\<lambda>m. \<not> is_note_on m)) [[other_msg ''note_off'' 480, note_on 60 0 10], []]
   \<and> midi_to_sc_format [[other_msg ''note_off'' 480, note_on 60 0 10], []] [''la la''] 480
      = (Inr ''Total 0 lines.\<newline>'', [''la la''])
   \<and> midi_to_sc_format [] [''la la''] 480 = (Inr ''Total 0 lines.\<newline>'', [''la la''])"
proof -
  have h: "\<forall>t \<in> set [[other_msg ''note_off'' 480, note_on 60 0 10], []].
      \<forall>m \<in> set t. \<not> is_note_on m"
    by (simp add: is_note_on_def other_msg_def note_on_def)
  have e: "\<forall>t \<in> set ([] :: track list). \<forall>m \<in> set t. \<not> is_note_on m" by simp
  from h no_note_on_total_0 [OF h, of "[''la la'']" 480]
    no_note_on_total_0 [OF e, of "[''la la'']" 480]
  show ?thesis unfolding list_all_iff by blast
qed

text \<open>
  Claim C6. A single track with note-on events of velocity \<open>> 0\<close> at the times 0, 480
  and 100 for the notes 60, 64 and 67, the lyrics \<open>[''la la'']\<close> and 480 ticks per bar:
  the conversion returns the three lines of the scenario (the third delta is
  \<open>100 - 480 = -380\<close>, token 79), and the lyric list is empty afterwards.
\<close>

theorem end_to_end_scenario:
  "0 < v1 \<Longrightarrow> 0 < v2 \<Longrightarrow> 0 < v3 \<Longrightarrow>
   midi_to_sc_format [[note_on 60 v1 0, note_on 64 v2 480, note_on 67 v3 100]] [''la la''] 480
   = (Inr ''Total 2 lines.\<newline>The first line: la la, <C4>,<79> | <E4>,<48>,\<newline>The second line: <G4>,<79>,\<newline>'', [])"
  by (simp add: midi_to_sc_format_def segment_def process_track_def process_msg_def is_note_on_def
      initial_state_def append_note_def push_bar_def new_bar_def read_bars_def Let_def note_on_def
      note_duration_def midi_note_to_name_def note_names_def convert_ticks_to_duration_def
      int_truediv_def str_int_def str_nat.simps header_def ordinal_def ordinals_def
      lyric_line_text_def plain_line_text_def)

theorem end_to_end_scenario_witness:
  "(0::int) < 64 \<and>
   midi_to_sc_format [[note_on 60 64 0, note_on 64 64 480, note_on 67 64 100]] [''la la''] 480
   = (Inr ''Total 2 lines.\<newline>The first line: la la, <C4>,<79> | <E4>,<48>,\<newline>The second line: <G4>,<79>,\<newline>'', [])"
  using end_to_end_scenario [of 64 64 64] by simp

end
